theory Spec2Isabelle
  imports Complex_Main
begin

section \<open>JavaScript values\<close>

text \<open>
  The validation engine (\<^verbatim>\<open>src/utils/validationEngine.ts\<close>) reads cells of type
  \<^verbatim>\<open>any\<close>. A cell is modelled as a JavaScript primitive: the CSV parser delivers
  strings, the spreadsheet parser strings, numbers and booleans, and a missing column
  reads as \<^verbatim>\<open>undefined\<close>. A number is its exact value, or NaN, or an infinity
  (the two zeros are one value: no operation used here tells them apart). Strings are
  lists of code units below 256.
\<close>

datatype jsnum = NaN | PosInf | NegInf | Fin rat

datatype prim = VUndefined | VNull | VBool bool | VNum jsnum | VStr string

text \<open>What \<^verbatim>\<open>JSON.parse\<close> returns: a primitive, an array or an object.\<close>

datatype jsval = JPrim prim | JArr "jsval list" | JObj "(string \<times> jsval) list"

text \<open>The one exception the engine can raise and does not catch.\<close>

datatype exn = TypeError

text \<open>
  The functions of the host that depend on binary64 rounding or on a grammar of their
  own are parameters of the model: \<^verbatim>\<open>parseFloat\<close> on a string, the digits of a
  number (\<^verbatim>\<open>Number.prototype.toString\<close>) and \<^verbatim>\<open>JSON.parse\<close>, whose
  \<^verbatim>\<open>SyntaxError\<close> is the value \<open>None\<close>.
\<close>

record host =
  parseFloat :: "string \<Rightarrow> jsnum"
  Number_toString :: "jsnum \<Rightarrow> string"
  JSON_parse :: "string \<Rightarrow> jsval option"

fun isNaN :: "jsnum \<Rightarrow> bool" where
  "isNaN NaN = True"
| "isNaN _ = False"

text \<open>The relational operators on numbers: every comparison with NaN is false.\<close>

fun js_lt :: "jsnum \<Rightarrow> jsnum \<Rightarrow> bool" where
  "js_lt NaN _ = False"
| "js_lt _ NaN = False"
| "js_lt (Fin a) (Fin b) = (a < b)"
| "js_lt NegInf b = (b \<noteq> NegInf)"
| "js_lt a PosInf = (a \<noteq> PosInf)"
| "js_lt _ _ = False"

definition js_gt :: "jsnum \<Rightarrow> jsnum \<Rightarrow> bool" where
  "js_gt a b = js_lt b a"

text \<open>ToBoolean: what \<^verbatim>\<open>!value\<close> and \<^verbatim>\<open>value && ...\<close> test.\<close>

fun truthy :: "prim \<Rightarrow> bool" where
  "truthy VUndefined = False"
| "truthy VNull = False"
| "truthy (VBool b) = b"
| "truthy (VNum n) = (n \<noteq> NaN \<and> n \<noteq> Fin 0)"
| "truthy (VStr s) = (s \<noteq> [])"

fun truthy_js :: "jsval \<Rightarrow> bool" where
  "truthy_js (JPrim p) = truthy p"
| "truthy_js (JArr _) = True"
| "truthy_js (JObj _) = True"

text \<open>ToString, as \<^verbatim>\<open>String(value)\<close>, a template literal and \<^verbatim>\<open>RegExp.test\<close> apply it.\<close>

fun ToString_prim :: "host \<Rightarrow> prim \<Rightarrow> string" where
  "ToString_prim H VUndefined = ''undefined''"
| "ToString_prim H VNull = ''null''"
| "ToString_prim H (VBool b) = (if b then ''true'' else ''false'')"
| "ToString_prim H (VNum n) = Number_toString H n"
| "ToString_prim H (VStr s) = s"

fun joinWith :: "string \<Rightarrow> string list \<Rightarrow> string" where
  "joinWith sep [] = []"
| "joinWith sep [x] = x"
| "joinWith sep (x # y # ys) = x @ sep @ joinWith sep (y # ys)"

text \<open>
  An array converts to the comma-joined conversions of its elements, an element that is
  \<^verbatim>\<open>null\<close> or \<^verbatim>\<open>undefined\<close> to the empty string; a plain object to
  \<^verbatim>\<open>[object Object]\<close>.
\<close>

fun ToString :: "host \<Rightarrow> jsval \<Rightarrow> string" where
  "ToString H (JPrim p) = ToString_prim H p"
| "ToString H (JArr xs) =
     joinWith '',''
       (map (\<lambda>x. case x of JPrim VUndefined \<Rightarrow> [] | JPrim VNull \<Rightarrow> [] | _ \<Rightarrow> ToString H x) xs)"
| "ToString H (JObj _) = ''[object Object]''"

text \<open>\<^verbatim>\<open>Array.prototype.join\<close> on an array of parsed values.\<close>

definition Array_join :: "host \<Rightarrow> string \<Rightarrow> jsval list \<Rightarrow> string" where
  "Array_join H sep xs =
     joinWith sep
       (map (\<lambda>x. case x of JPrim VUndefined \<Rightarrow> [] | JPrim VNull \<Rightarrow> [] | _ \<Rightarrow> ToString H x) xs)"

section \<open>Strings and regular expressions\<close>

text \<open>White space and line terminators, as \<^verbatim>\<open>trim\<close> and \<^verbatim>\<open>\s\<close> read them.\<close>

definition isSpace :: "char \<Rightarrow> bool" where
  "isSpace c = (of_char c \<in> {9, 10, 11, 12, 13, 32, 160 :: nat})"

definition isDigit :: "char \<Rightarrow> bool" where
  "isDigit c = (48 \<le> (of_char c :: nat) \<and> (of_char c :: nat) \<le> 57)"

definition trim :: "string \<Rightarrow> string" where
  "trim s = rev (dropWhile isSpace (rev (dropWhile isSpace s)))"

definition toLowerCase :: "string \<Rightarrow> string" where
  "toLowerCase s =
     map (\<lambda>c. let n = (of_char c :: nat) in
               if (65 \<le> n \<and> n \<le> 90) \<or> (192 \<le> n \<and> n \<le> 222 \<and> n \<noteq> 215)
               then char_of (n + 32) else c) s"

fun startsWith :: "string \<Rightarrow> string \<Rightarrow> bool" where
  "startsWith s [] = True"
| "startsWith [] (p # ps) = False"
| "startsWith (c # cs) (p # ps) = (c = p \<and> startsWith cs ps)"

text \<open>\<^verbatim>\<open>String.prototype.includes\<close>.\<close>

fun includes_str :: "string \<Rightarrow> string \<Rightarrow> bool" where
  "includes_str [] t = (t = [])"
| "includes_str (c # cs) t = (startsWith (c # cs) t \<or> includes_str cs t)"

text \<open>
  The patterns of the engine are anchored at both ends and are sequences of character
  classes, each with a quantifier: a regular expression is modelled as such a sequence,
  without flags (so \<^verbatim>\<open>test\<close> keeps no state between calls).
\<close>

datatype quant = Once | Optional | ZeroOrMore | OneOrMore | AtMost nat

type_synonym regex = "((char \<Rightarrow> bool) \<times> quant) list"

fun matches :: "regex \<Rightarrow> string \<Rightarrow> bool" where
  "matches [] s = (s = [])"
| "matches ((p, Once) # r) s =
     (case s of [] \<Rightarrow> False | c # cs \<Rightarrow> p c \<and> matches r cs)"
| "matches ((p, Optional) # r) s =
     (matches r s \<or> (case s of [] \<Rightarrow> False | c # cs \<Rightarrow> p c \<and> matches r cs))"
| "matches ((p, ZeroOrMore) # r) s =
     (matches r s \<or> (case s of [] \<Rightarrow> False | c # cs \<Rightarrow> p c \<and> matches ((p, ZeroOrMore) # r) cs))"
| "matches ((p, OneOrMore) # r) s =
     (case s of [] \<Rightarrow> False | c # cs \<Rightarrow> p c \<and> matches ((p, ZeroOrMore) # r) cs)"
| "matches ((p, AtMost n) # r) s =
     (matches r s \<or>
      (case s of [] \<Rightarrow> False | c # cs \<Rightarrow> 0 < n \<and> p c \<and> matches ((p, AtMost (n - 1)) # r) cs))"

text \<open>\<^verbatim>\<open>/^[^\s@]+@[^\s@]+\.[^\s@]+$/\<close>\<close>

definition email_regex :: regex where
  "email_regex =
     [(\<lambda>c. \<not> isSpace c \<and> c \<noteq> CHR ''@'', OneOrMore),
      (\<lambda>c. c = CHR ''@'', Once),
      (\<lambda>c. \<not> isSpace c \<and> c \<noteq> CHR ''@'', OneOrMore),
      (\<lambda>c. c = CHR ''.'', Once),
      (\<lambda>c. \<not> isSpace c \<and> c \<noteq> CHR ''@'', OneOrMore)]"

text \<open>\<^verbatim>\<open>/^[\+]?[1-9][\d]{0,15}$/\<close>\<close>

definition phone_regex :: regex where
  "phone_regex =
     [(\<lambda>c. c = CHR ''+'', Optional),
      (\<lambda>c. isDigit c \<and> c \<noteq> CHR ''0'', Once),
      (isDigit, AtMost 15)]"

text \<open>\<^verbatim>\<open>value.replace(/[-\s\(\)]/g, '')\<close> on a string.\<close>

definition phone_strip :: "string \<Rightarrow> string" where
  "phone_strip s =
     filter (\<lambda>c. \<not> (c = CHR ''-'' \<or> isSpace c \<or> c = CHR ''('' \<or> c = CHR '')'')) s"

text \<open>\<^verbatim>\<open>/^\[.*\]$/\<close>: the dot matches any character but a line terminator.\<close>

definition skill_regex :: regex where
  "skill_regex =
     [(\<lambda>c. c = CHR ''['', Once),
      (\<lambda>c. (of_char c :: nat) \<noteq> 10 \<and> (of_char c :: nat) \<noteq> 13, ZeroOrMore),
      (\<lambda>c. c = CHR '']'', Once)]"

section \<open>Rules, errors, tables\<close>

datatype RuleType = Required | Email | Phone | Reference | Duplicate | Range | Regex | Custom

datatype Severity = Error | Warning

text \<open>
  \<^verbatim>\<open>config?: any\<close> holds \<^verbatim>\<open>{ min, max }\<close> for a range rule and
  \<^verbatim>\<open>{ pattern }\<close> for a regex rule; reading a property of a missing config raises
  TypeError, and a property the config does not have reads as \<^verbatim>\<open>undefined\<close>.
\<close>

datatype Config = RangeConfig jsnum jsnum | PatternConfig regex

record ValidationRule =
  rule_id :: string
  rule_name :: string
  rule_type :: RuleType
  rule_field :: string
  rule_message :: string
  rule_severity :: Severity
  rule_config :: "Config option"

record ValidationError =
  row :: nat
  column :: string
  message :: string
  severity :: Severity
  ruleId :: string

text \<open>A row object: its own properties, in order; a missing property reads as undefined.\<close>

type_synonym row_obj = "(string \<times> prim) list"

definition get_field :: "row_obj \<Rightarrow> string \<Rightarrow> prim" where
  "get_field r f = (case map_of r f of None \<Rightarrow> VUndefined | Some v \<Rightarrow> v)"

text \<open>
  A loaded file, as \<^verbatim>\<open>pages/Index.tsx\<close> keeps it, and the dataset
  \<^verbatim>\<open>allFiles\<close>: the files by key, in the order of \<^verbatim>\<open>Object.values\<close>.
\<close>

record FileData =
  name :: string
  data :: "row_obj list"
  headers :: "string list"
  validationErrors :: "ValidationError list"

type_synonym dataset = "(string \<times> FileData) list"

definition Object_values :: "dataset \<Rightarrow> FileData list" where
  "Object_values files = map snd files"

section \<open>The field validators\<close>

text \<open>\<^verbatim>\<open>parseJsonArray\<close>: the parsed value, or the empty array when it is falsy or the parse fails.\<close>

definition parseJsonArray :: "host \<Rightarrow> prim \<Rightarrow> jsval" where
  "parseJsonArray H v =
     (case JSON_parse H (ToString_prim H v) of
        None \<Rightarrow> JArr []
      | Some j \<Rightarrow> if truthy_js j then j else JArr [])"

definition getAllTaskIds :: "dataset \<Rightarrow> prim list" where
  "getAllTaskIds allFiles =
     (case find (\<lambda>file. includes_str (toLowerCase (name file)) ''task'') (Object_values allFiles) of
        None \<Rightarrow> []
      | Some taskFile \<Rightarrow> filter truthy (map (\<lambda>r. get_field r ''TaskID'') (data taskFile)))"

text \<open>\<^verbatim>\<open>allTaskIds.includes(id)\<close>: an array or an object is never equal to a cell.\<close>

fun Array_includes :: "prim list \<Rightarrow> jsval \<Rightarrow> bool" where
  "Array_includes xs (JPrim p) = (p \<in> set xs)"
| "Array_includes xs _ = False"

definition validateField ::
  "host \<Rightarrow> prim \<Rightarrow> ValidationRule \<Rightarrow> nat \<Rightarrow> row_obj \<Rightarrow> dataset option
     \<Rightarrow> exn + ValidationError option" where
  "validateField H v rule rowIndex r allFiles =
   (case rule_type rule of
      Required \<Rightarrow>
        if \<not> truthy v \<or> trim (ToString_prim H v) = [] then
          Inr (Some \<lparr>row = rowIndex, column = rule_field rule, message = rule_message rule,
                     severity = rule_severity rule, ruleId = rule_id rule\<rparr>)
        else Inr None
    | Email \<Rightarrow>
        if truthy v \<and> \<not> matches email_regex (ToString_prim H v) then
          Inr (Some \<lparr>row = rowIndex, column = rule_field rule, message = rule_message rule,
                     severity = rule_severity rule, ruleId = rule_id rule\<rparr>)
        else Inr None
    | Phone \<Rightarrow>
        if truthy v then
          (case v of
             VStr s \<Rightarrow>
               if \<not> matches phone_regex (phone_strip s) then
                 Inr (Some \<lparr>row = rowIndex, column = rule_field rule, message = rule_message rule,
                            severity = rule_severity rule, ruleId = rule_id rule\<rparr>)
               else Inr None
           | _ \<Rightarrow> Inl TypeError)
        else Inr None
    | Range \<Rightarrow>
        (let numValue = parseFloat H (ToString_prim H v) in
         if isNaN numValue then Inr None
         else (case rule_config rule of
                 None \<Rightarrow> Inl TypeError
               | Some (RangeConfig cmin cmax) \<Rightarrow>
                   if js_lt numValue cmin \<or> js_gt numValue cmax then
                     Inr (Some \<lparr>row = rowIndex, column = rule_field rule,
                                message = rule_message rule @ '' ('' @ Number_toString H cmin
                                            @ ''-'' @ Number_toString H cmax @ '')'',
                                severity = rule_severity rule, ruleId = rule_id rule\<rparr>)
                   else Inr None
               | Some (PatternConfig _) \<Rightarrow> Inr None))
    | Regex \<Rightarrow>
        if truthy v then
          (case rule_config rule of
             Some (PatternConfig p) \<Rightarrow>
               if \<not> matches p (ToString_prim H v) then
                 Inr (Some \<lparr>row = rowIndex, column = rule_field rule, message = rule_message rule,
                            severity = rule_severity rule, ruleId = rule_id rule\<rparr>)
               else Inr None
           | _ \<Rightarrow> Inl TypeError)
        else Inr None
    | Reference \<Rightarrow>
        (case allFiles of
           None \<Rightarrow> Inr None
         | Some files \<Rightarrow>
             if truthy v then
               (let taskIds = parseJsonArray H v;
                    allTaskIds = getAllTaskIds files
                in case taskIds of
                     JArr ids \<Rightarrow>
                       (let invalidRefs = filter (\<lambda>i. \<not> Array_includes allTaskIds i) ids in
                        if length invalidRefs > 0 then
                          Inr (Some \<lparr>row = rowIndex, column = rule_field rule,
                                     message = rule_message rule @ '': '' @ Array_join H '', '' invalidRefs,
                                     severity = rule_severity rule, ruleId = rule_id rule\<rparr>)
                        else Inr None)
                   | _ \<Rightarrow> Inl TypeError)
             else Inr None)
    | Duplicate \<Rightarrow> Inr None
    | Custom \<Rightarrow> Inr None)"

section \<open>The engine\<close>

text \<open>The state of the \<^verbatim>\<open>ValidationEngine\<close> object: its rule registry.\<close>

record ValidationEngine =
  rules :: "ValidationRule list"

definition validationEngine :: ValidationEngine where
  "validationEngine = \<lparr>rules =
     [\<lparr>rule_id = ''req-client-name'', rule_name = ''Required Client Name'', rule_type = Required,
       rule_field = ''Name'', rule_message = ''Client name is required'',
       rule_severity = Error, rule_config = None\<rparr>,
      \<lparr>rule_id = ''email-format'', rule_name = ''Email Format'', rule_type = Email,
       rule_field = ''Email'', rule_message = ''Invalid email format'',
       rule_severity = Error, rule_config = None\<rparr>,
      \<lparr>rule_id = ''phone-format'', rule_name = ''Phone Format'', rule_type = Phone,
       rule_field = ''PhoneNumber'', rule_message = ''Invalid phone number format'',
       rule_severity = Warning, rule_config = None\<rparr>,
      \<lparr>rule_id = ''duplicate-ids'', rule_name = ''Duplicate IDs'', rule_type = Duplicate,
       rule_field = ''ClientID'', rule_message = ''Duplicate ID found'',
       rule_severity = Error, rule_config = None\<rparr>,
      \<lparr>rule_id = ''worker-load-range'', rule_name = ''Worker Load Range'', rule_type = Range,
       rule_field = ''CurrentLoad'', rule_message = ''Current load exceeds maximum capacity'',
       rule_severity = Warning, rule_config = Some (RangeConfig (Fin 0) (Fin 100))\<rparr>,
      \<lparr>rule_id = ''task-reference'', rule_name = ''Task References'', rule_type = Reference,
       rule_field = ''TaskIDs'', rule_message = ''Referenced task ID not found'',
       rule_severity = Error, rule_config = None\<rparr>,
      \<lparr>rule_id = ''hourly-rate-range'', rule_name = ''Hourly Rate Range'', rule_type = Range,
       rule_field = ''HourlyRate'', rule_message = ''Hourly rate seems unusually high/low'',
       rule_severity = Warning, rule_config = Some (RangeConfig (Fin 15) (Fin 200))\<rparr>,
      \<lparr>rule_id = ''skill-format'', rule_name = ''Skills Format'', rule_type = Regex,
       rule_field = ''Skills'', rule_message = ''Skills must be in JSON array format'',
       rule_severity = Error, rule_config = Some (PatternConfig skill_regex)\<rparr>]\<rparr>"

definition getRules :: "ValidationEngine \<Rightarrow> ValidationRule list" where
  "getRules eng = rules eng"

definition addCustomRule :: "ValidationRule \<Rightarrow> ValidationEngine \<Rightarrow> ValidationEngine" where
  "addCustomRule rule eng = eng\<lparr>rules := rules eng @ [rule]\<rparr>"

text \<open>
  \<^verbatim>\<open>duplicateTracker\<close>, a \<^verbatim>\<open>Map\<close> from cell values to row indices: the entries in
  insertion order, which is the order \<^verbatim>\<open>Map.prototype.forEach\<close> visits. Keys are
  compared by SameValueZero, which on primitives is equality of values.
\<close>

type_synonym tracker = "(prim \<times> nat list) list"

definition Map_has :: "tracker \<Rightarrow> prim \<Rightarrow> bool" where
  "Map_has t k = (map_of t k \<noteq> None)"

definition Map_set :: "tracker \<Rightarrow> prim \<Rightarrow> nat list \<Rightarrow> tracker" where
  "Map_set t k v =
     (if Map_has t k then map (\<lambda>(k', v'). if k' = k then (k', v) else (k', v')) t
      else t @ [(k, v)])"

text \<open>\<^verbatim>\<open>duplicateTracker.get(fieldValue)!.push(rowIndex)\<close>\<close>

definition Map_get_push :: "tracker \<Rightarrow> prim \<Rightarrow> nat \<Rightarrow> tracker" where
  "Map_get_push t k i = map (\<lambda>(k', v'). if k' = k then (k', v' @ [i]) else (k', v')) t"

record loop_state =
  errors :: "ValidationError list"
  duplicateTracker :: tracker

text \<open>\<^verbatim>\<open>forEach\<close> with a callback that may throw: the exception ends the loop.\<close>

fun forEach :: "('a \<Rightarrow> 's \<Rightarrow> exn + 's) \<Rightarrow> 'a list \<Rightarrow> 's \<Rightarrow> exn + 's" where
  "forEach f [] s = Inr s"
| "forEach f (x # xs) s = (case f x s of Inl e \<Rightarrow> Inl e | Inr s' \<Rightarrow> forEach f xs s')"

text \<open>The body of the inner loop, for one rule on one row.\<close>

definition rule_body ::
  "host \<Rightarrow> dataset option \<Rightarrow> nat \<Rightarrow> row_obj \<Rightarrow> ValidationRule \<Rightarrow> loop_state \<Rightarrow> exn + loop_state" where
  "rule_body H allFiles rowIndex r rule st =
     (let fieldValue = get_field r (rule_field rule) in
      case validateField H fieldValue rule rowIndex r allFiles of
        Inl e \<Rightarrow> Inl e
      | Inr error \<Rightarrow>
          (let st1 = (case error of Some e \<Rightarrow> st\<lparr>errors := errors st @ [e]\<rparr> | None \<Rightarrow> st) in
           if rule_type rule = Duplicate \<and> truthy fieldValue then
             (let t1 = (if \<not> Map_has (duplicateTracker st1) fieldValue
                        then Map_set (duplicateTracker st1) fieldValue []
                        else duplicateTracker st1)
              in Inr (st1\<lparr>duplicateTracker := Map_get_push t1 fieldValue rowIndex\<rparr>))
           else Inr st1))"

definition row_body ::
  "host \<Rightarrow> ValidationRule list \<Rightarrow> dataset option \<Rightarrow> nat \<times> row_obj \<Rightarrow> loop_state \<Rightarrow> exn + loop_state" where
  "row_body H rs allFiles ir st = forEach (rule_body H allFiles (fst ir) (snd ir)) rs st"

text \<open>The second loop: the errors of one entry of the tracker.\<close>

definition duplicate_errors :: "host \<Rightarrow> prim \<times> nat list \<Rightarrow> ValidationError list" where
  "duplicate_errors H entry =
     (let val = fst entry; rows = snd entry in
      if length rows > 1 then
        map (\<lambda>rowIndex.
               \<lparr>row = rowIndex, column = ''ClientID'',
                message = ''Duplicate ID '' @ [CHR 0x22] @ ToString_prim H val @ [CHR 0x22]
                           @ '' found in rows ''
                           @ joinWith '', '' (map (\<lambda>r. Number_toString H (Fin (of_nat (r + 1)))) rows),
                severity = Error, ruleId = ''duplicate-ids''\<rparr>) rows
      else [])"

definition validateData ::
  "host \<Rightarrow> ValidationEngine \<Rightarrow> row_obj list \<Rightarrow> string list \<Rightarrow> string \<Rightarrow> dataset option
     \<Rightarrow> exn + ValidationError list" where
  "validateData H eng dat hdrs fileName allFiles =
     (case forEach (row_body H (rules eng) allFiles) (zip [0..<length dat] dat)
             \<lparr>errors = [], duplicateTracker = []\<rparr> of
        Inl e \<Rightarrow> Inl e
      | Inr st \<Rightarrow> Inr (errors st @ concat (map (duplicate_errors H) (duplicateTracker st))))"

section \<open>A reference host\<close>

text \<open>
  A host for evaluating the engine on concrete tables. Numbers are read and printed as
  exact decimals: it agrees with the JavaScript host on the integers below \<open>10^21\<close>
  in magnitude and on short decimal literals, and does not round to binary64.
\<close>

definition digit_val :: "char \<Rightarrow> nat" where
  "digit_val c = of_char c - 48"

definition digits_value :: "string \<Rightarrow> nat" where
  "digits_value ds = foldl (\<lambda>a c. 10 * a + digit_val c) 0 ds"

text \<open>An exponent part \<^verbatim>\<open>e\<close>, sign, digits; it counts only when it has digits.\<close>

definition exponent_part :: "string \<Rightarrow> (int \<times> string) option" where
  "exponent_part s =
     (case s of
        [] \<Rightarrow> None
      | c # cs \<Rightarrow>
          if c = CHR ''e'' \<or> c = CHR ''E'' then
            (let neg = (case cs of [] \<Rightarrow> False | d # _ \<Rightarrow> d = CHR ''-'');
                 ds = (case cs of [] \<Rightarrow> [] | d # ds' \<Rightarrow> if d = CHR ''-'' \<or> d = CHR ''+'' then ds' else cs);
                 e = takeWhile isDigit ds
             in if e = [] then None
                else Some ((if neg then - int (digits_value e) else int (digits_value e)),
                           dropWhile isDigit ds))
          else None)"

definition scale10 :: "rat \<Rightarrow> int \<Rightarrow> rat" where
  "scale10 m e = (if 0 \<le> e then m * 10 ^ nat e else m / 10 ^ nat (- e))"

definition ref_parseFloat :: "string \<Rightarrow> jsnum" where
  "ref_parseFloat s =
     (let t = dropWhile isSpace s;
          neg = (case t of [] \<Rightarrow> False | c # _ \<Rightarrow> c = CHR ''-'');
          u = (case t of [] \<Rightarrow> [] | c # cs \<Rightarrow> if c = CHR ''-'' \<or> c = CHR ''+'' then cs else t)
      in if startsWith u ''Infinity'' then (if neg then NegInf else PosInf)
         else
           (let ip = takeWhile isDigit u;
                r1 = dropWhile isDigit u;
                fp = (case r1 of [] \<Rightarrow> [] | c # cs \<Rightarrow> if c = CHR ''.'' then takeWhile isDigit cs else []);
                r2 = (case r1 of [] \<Rightarrow> [] | c # cs \<Rightarrow> if c = CHR ''.'' then dropWhile isDigit cs else r1)
            in if ip = [] \<and> fp = [] then NaN
               else
                 (let m = of_nat (digits_value (ip @ fp)) / 10 ^ length fp;
                      e = (case exponent_part r2 of None \<Rightarrow> 0 | Some (e, _) \<Rightarrow> e);
                      q = scale10 m e
                  in Fin (if neg then - q else q))))"

definition digit_char :: "nat \<Rightarrow> char" where
  "digit_char n = ''0123456789'' ! n"

fun showNat :: "nat \<Rightarrow> string" where
  "showNat n = (if n < 10 then [digit_char n] else showNat (n div 10) @ [digit_char (n mod 10)])"

declare showNat.simps [simp del]

text \<open>The digits after the point, by long division, at most \<open>k\<close> of them.\<close>

fun frac_digits :: "nat \<Rightarrow> rat \<Rightarrow> string" where
  "frac_digits 0 q = []"
| "frac_digits (Suc k) q =
     (if q = 0 then []
      else digit_char (nat \<lfloor>10 * q\<rfloor>) # frac_digits k (10 * q - of_int \<lfloor>10 * q\<rfloor>))"

fun ref_Number_toString :: "jsnum \<Rightarrow> string" where
  "ref_Number_toString NaN = ''NaN''"
| "ref_Number_toString PosInf = ''Infinity''"
| "ref_Number_toString NegInf = ''-Infinity''"
| "ref_Number_toString (Fin q) =
     (let a = \<bar>q\<bar>; ip = nat \<lfloor>a\<rfloor>; fr = a - of_int \<lfloor>a\<rfloor> in
      (if q < 0 then ''-'' else []) @ showNat ip
        @ (if fr = 0 then [] else ''.'' @ frac_digits 20 fr))"

text \<open>JSON: white space, strings with their escapes, numbers, literals, arrays, objects.\<close>

definition json_ws :: "string \<Rightarrow> string" where
  "json_ws s = dropWhile (\<lambda>c. of_char c \<in> {9, 10, 13, 32 :: nat}) s"

definition hex_val :: "char \<Rightarrow> nat option" where
  "hex_val c =
     (let n = (of_char c :: nat) in
      if 48 \<le> n \<and> n \<le> 57 then Some (n - 48)
      else if 65 \<le> n \<and> n \<le> 70 then Some (n - 55)
      else if 97 \<le> n \<and> n \<le> 102 then Some (n - 87)
      else None)"

definition unescape :: "char \<Rightarrow> char option" where
  "unescape e =
     (if e = CHR 0x22 then Some (CHR 0x22)
      else if e = CHR 0x5C then Some (CHR 0x5C)
      else if e = CHR ''/'' then Some CHR ''/''
      else if e = CHR ''b'' then Some (CHR 0x08)
      else if e = CHR ''f'' then Some (CHR 0x0C)
      else if e = CHR ''n'' then Some (CHR 0x0A)
      else if e = CHR ''r'' then Some (CHR 0x0D)
      else if e = CHR ''t'' then Some (CHR 0x09)
      else None)"

text \<open>
  The characters of a string literal after its opening quote, and what follows the
  closing quote. An escape \<^verbatim>\<open>\uXXXX\<close> is read when the code unit is below 256.
\<close>

fun json_string_body :: "string \<Rightarrow> (string \<times> string) option" where
  "json_string_body [] = None"
| "json_string_body (c # cs) =
     (if c = CHR 0x22 then Some ([], cs)
      else if c = CHR 0x5C then
        (case cs of
           [] \<Rightarrow> None
         | e # es \<Rightarrow>
             if e = CHR ''u'' then
               (case es of
                  h1 # h2 # h3 # h4 # rest \<Rightarrow>
                    (case (hex_val h1, hex_val h2, hex_val h3, hex_val h4) of
                       (Some a, Some b, Some c', Some d) \<Rightarrow>
                         if a = 0 \<and> b = 0 then
                           map_option (\<lambda>(str, rest'). (char_of (16 * c' + d) # str, rest'))
                             (json_string_body rest)
                         else None
                     | _ \<Rightarrow> None)
                | _ \<Rightarrow> None)
             else
               (case unescape e of
                  None \<Rightarrow> None
                | Some ch \<Rightarrow> map_option (\<lambda>(str, rest). (ch # str, rest)) (json_string_body es)))
      else if (of_char c :: nat) < 32 then None
      else map_option (\<lambda>(str, rest). (c # str, rest)) (json_string_body cs))"

definition json_number :: "string \<Rightarrow> (jsval \<times> string) option" where
  "json_number s =
     (let neg = (case s of [] \<Rightarrow> False | c # _ \<Rightarrow> c = CHR ''-'');
          u = (if neg then tl s else s);
          ip = (case u of [] \<Rightarrow> [] | c # _ \<Rightarrow> if c = CHR ''0'' then ''0'' else takeWhile isDigit u);
          r1 = drop (length ip) u
      in if ip = [] then None
         else
           (case (case r1 of [] \<Rightarrow> Some ([], r1)
                  | c # cs \<Rightarrow>
                      if c = CHR ''.'' then
                        (if takeWhile isDigit cs = [] then None
                         else Some (takeWhile isDigit cs, dropWhile isDigit cs))
                      else Some ([], r1)) of
              None \<Rightarrow> None
            | Some (fp, r2) \<Rightarrow>
                (case (case r2 of [] \<Rightarrow> Some (0, r2)
                       | c # cs \<Rightarrow>
                           if c = CHR ''e'' \<or> c = CHR ''E'' then exponent_part r2 else Some (0, r2)) of
                   None \<Rightarrow> None
                 | Some (e, r3) \<Rightarrow>
                     (let q = scale10 (of_nat (digits_value (ip @ fp)) / 10 ^ length fp) e
                      in Some (JPrim (VNum (Fin (if neg then - q else q))), r3)))))"

text \<open>
  The recursive descent, with fuel: every call reads a character before it calls
  again, so the length of the text, plus one, is fuel enough.
\<close>

fun json_value :: "nat \<Rightarrow> string \<Rightarrow> (jsval \<times> string) option"
  and json_elements :: "nat \<Rightarrow> string \<Rightarrow> (jsval list \<times> string) option"
  and json_members :: "nat \<Rightarrow> string \<Rightarrow> ((string \<times> jsval) list \<times> string) option" where
  "json_value 0 s = None"
| "json_value (Suc n) s =
     (case json_ws s of
        [] \<Rightarrow> None
      | c # cs \<Rightarrow>
          if c = CHR ''['' then
            (case json_ws cs of
               [] \<Rightarrow> None
             | d # ds \<Rightarrow>
                 if d = CHR '']'' then Some (JArr [], ds)
                 else map_option (\<lambda>(xs, rest). (JArr xs, rest)) (json_elements n cs))
          else if c = CHR ''{'' then
            (case json_ws cs of
               [] \<Rightarrow> None
             | d # ds \<Rightarrow>
                 if d = CHR ''}'' then Some (JObj [], ds)
                 else map_option (\<lambda>(ms, rest). (JObj ms, rest)) (json_members n cs))
          else if c = CHR 0x22 then
            map_option (\<lambda>(str, rest). (JPrim (VStr str), rest)) (json_string_body cs)
          else if startsWith (c # cs) ''true'' then Some (JPrim (VBool True), drop 4 (c # cs))
          else if startsWith (c # cs) ''false'' then Some (JPrim (VBool False), drop 5 (c # cs))
          else if startsWith (c # cs) ''null'' then Some (JPrim VNull, drop 4 (c # cs))
          else json_number (c # cs))"
| "json_elements 0 s = None"
| "json_elements (Suc n) s =
     (case json_value n s of
        None \<Rightarrow> None
      | Some (v, rest) \<Rightarrow>
          (case json_ws rest of
             [] \<Rightarrow> None
           | c # cs \<Rightarrow>
               if c = CHR '','' then
                 map_option (\<lambda>(vs, rest'). (v # vs, rest')) (json_elements n cs)
               else if c = CHR '']'' then Some ([v], cs)
               else None))"
| "json_members 0 s = None"
| "json_members (Suc n) s =
     (case json_ws s of
        [] \<Rightarrow> None
      | q # qs \<Rightarrow>
          if q = CHR 0x22 then
            (case json_string_body qs of
               None \<Rightarrow> None
             | Some (k, r1) \<Rightarrow>
                 (case json_ws r1 of
                    [] \<Rightarrow> None
                  | c # cs \<Rightarrow>
                      if c = CHR '':'' then
                        (case json_value n cs of
                           None \<Rightarrow> None
                         | Some (v, r2) \<Rightarrow>
                             (case json_ws r2 of
                                [] \<Rightarrow> None
                              | d # ds \<Rightarrow>
                                  if d = CHR '','' then
                                    map_option (\<lambda>(ms, rest). ((k, v) # ms, rest)) (json_members n ds)
                                  else if d = CHR ''}'' then Some ([(k, v)], ds)
                                  else None))
                      else None))
          else None)"

definition ref_JSON_parse :: "string \<Rightarrow> jsval option" where
  "ref_JSON_parse s =
     (case json_value (Suc (length s)) s of
        None \<Rightarrow> None
      | Some (v, rest) \<Rightarrow> if json_ws rest = [] then Some v else None)"

definition ref_host :: host where
  "ref_host = \<lparr>parseFloat = ref_parseFloat, Number_toString = ref_Number_toString,
               JSON_parse = ref_JSON_parse\<rparr>"

section \<open>The engine as an object\<close>




section \<open>The validation score of the dashboard\<close>
















section \<open>The specification's view of the engine\<close>

text \<open>
  The definitions of this section follow the words of the specification; the theorems
  compare them with the code above.
\<close>

text \<open>A required value is missing: absent, null, or a string that is empty once trimmed.\<close>

definition required_fails_spec :: "prim \<Rightarrow> bool" where
  "required_fails_spec v =
     (case v of VUndefined \<Rightarrow> True | VNull \<Rightarrow> True | VStr s \<Rightarrow> trim s = [] | _ \<Rightarrow> False)"

text \<open>The inclusive interval of a range rule.\<close>

definition js_le :: "jsnum \<Rightarrow> jsnum \<Rightarrow> bool" where
  "js_le a b = (js_lt a b \<or> (a = b \<and> a \<noteq> NaN))"

text \<open>The errors of one rule on one row, and of all rules on one row, in registry order.\<close>

definition rule_errors ::
  "host \<Rightarrow> dataset option \<Rightarrow> nat \<Rightarrow> row_obj \<Rightarrow> ValidationRule \<Rightarrow> ValidationError list" where
  "rule_errors H allFiles rowIndex r rule =
     (case validateField H (get_field r (rule_field rule)) rule rowIndex r allFiles of
        Inr (Some e) \<Rightarrow> [e] | _ \<Rightarrow> [])"

definition row_errors ::
  "host \<Rightarrow> ValidationRule list \<Rightarrow> dataset option \<Rightarrow> nat \<times> row_obj \<Rightarrow> ValidationError list" where
  "row_errors H rs allFiles ir = concat (map (rule_errors H allFiles (fst ir) (snd ir)) rs)"

text \<open>
  The occurrences a duplicate rule records: the value of its field, when it is truthy,
  with the index of the row.
\<close>

definition rule_events :: "nat \<Rightarrow> row_obj \<Rightarrow> ValidationRule \<Rightarrow> (prim \<times> nat) list" where
  "rule_events rowIndex r rule =
     (if rule_type rule = Duplicate \<and> truthy (get_field r (rule_field rule))
      then [(get_field r (rule_field rule), rowIndex)] else [])"

definition row_events :: "ValidationRule list \<Rightarrow> nat \<times> row_obj \<Rightarrow> (prim \<times> nat) list" where
  "row_events rs ir = concat (map (rule_events (fst ir) (snd ir)) rs)"

text \<open>The elements of a list in the order of their first occurrence.\<close>

definition first_occ :: "'a list \<Rightarrow> 'a list" where
  "first_occ xs = rev (remdups (rev xs))"

text \<open>
  The occurrences grouped by value: the values in the order of their first occurrence,
  each with the row indices of its occurrences, in the order they were recorded.
\<close>

definition group_by_key :: "(prim \<times> nat) list \<Rightarrow> tracker" where
  "group_by_key evs =
     map (\<lambda>k. (k, map snd (filter (\<lambda>e. fst e = k) evs))) (first_occ (map fst evs))"

text \<open>One step of the tracker, as the inner loop takes it.\<close>

definition track :: "tracker \<Rightarrow> prim \<times> nat \<Rightarrow> tracker" where
  "track t e =
     Map_get_push (if \<not> Map_has t (fst e) then Map_set t (fst e) [] else t) (fst e) (snd e)"




text \<open>
  The table of tasks of a dataset: the first table whose name contains \<^verbatim>\<open>task\<close>,
  whatever the case of its letters; and the valid references: the truthy values of its
  \<^verbatim>\<open>TaskID\<close> column, none when there is no such table.
\<close>

fun first_task_table :: "FileData list \<Rightarrow> FileData option" where
  "first_task_table [] = None"
| "first_task_table (f # fs) =
     (if includes_str (toLowerCase (name f)) ''task'' then Some f else first_task_table fs)"


text \<open>No field validator raises on any row of the table.\<close>

definition validators_return ::
  "host \<Rightarrow> ValidationRule list \<Rightarrow> dataset option \<Rightarrow> row_obj list \<Rightarrow> bool" where
  "validators_return H rs allFiles dat =
     (\<forall>ir \<in> set (zip [0..<length dat] dat). \<forall>rule \<in> set rs.
        \<not> isl (validateField H (get_field (snd ir) (rule_field rule)) rule (fst ir) (snd ir) allFiles))"


section \<open>Example tables\<close>


text \<open>Four rows with errors of several rules and two groups of duplicates.\<close>

definition mixed_table :: "row_obj list" where
  "mixed_table =
     [[(''ClientID'', VStr ''B''), (''Name'', VStr [])],
      [(''ClientID'', VStr ''A''), (''Name'', VStr ''x''), (''Email'', VStr ''bad'')],
      [(''ClientID'', VStr ''A''), (''Name'', VStr ''y'')],
      [(''ClientID'', VStr ''B''), (''Name'', VStr ''z''), (''CurrentLoad'', VStr ''150'')]]"

text \<open>A second duplicate rule, on another field, added with \<^verbatim>\<open>addCustomRule\<close>.\<close>

definition worker_rule :: ValidationRule where
  "worker_rule =
     \<lparr>rule_id = ''duplicate-worker-ids'', rule_name = ''Duplicate Worker IDs'',
      rule_type = Duplicate, rule_field = ''WorkerID'', rule_message = ''Duplicate worker ID found'',
      rule_severity = Warning, rule_config = None\<rparr>"

definition workers_table :: "row_obj list" where
  "workers_table =
     [[(''WorkerID'', VStr ''W1''), (''Name'', VStr ''Ann'')],
      [(''WorkerID'', VStr ''W1''), (''Name'', VStr ''Bob'')]]"

definition crossed_table :: "row_obj list" where
  "crossed_table =
     [[(''ClientID'', VStr ''X''), (''Name'', VStr ''Ann'')],
      [(''WorkerID'', VStr ''X''), (''Name'', VStr ''Bob'')]]"




section \<open>Evaluation\<close>

lemmas eval_simps = validateData_def validationEngine_def row_body_def rule_body_def
  validateField_def get_field_def Let_def Map_has_def Map_set_def Map_get_push_def
  duplicate_errors_def skill_regex_def email_regex_def phone_regex_def phone_strip_def
  isSpace_def isDigit_def trim_def parseJsonArray_def getAllTaskIds_def Object_values_def
  toLowerCase_def Array_join_def js_gt_def addCustomRule_def

lemmas host_simps = ref_host_def ref_parseFloat_def ref_JSON_parse_def json_number_def
  json_ws_def exponent_part_def scale10_def digits_value_def digit_val_def digit_char_def
  showNat.simps hex_val_def unescape_def

section \<open>Lemmas on strings and numbers\<close>

lemma trim_Nil [simp]: "trim [] = []"
  by (simp add: trim_def)

lemma trim_keeps_first: "\<not> isSpace c \<Longrightarrow> trim (c # cs) \<noteq> []"
  by (auto simp: trim_def dropWhile_append split: if_splits)

lemma digit_char_not_space: "n < 10 \<Longrightarrow> \<not> isSpace (digit_char n)"
proof -
  assume "n < 10"
  then have "n \<in> {0, 1, 2, 3, 4, 5, 6, 7, 8, 9}" by auto
  then show ?thesis
    by (auto simp: digit_char_def isSpace_def)
qed

lemma showNat_first: "\<exists>c cs. showNat n = c # cs \<and> \<not> isSpace c"
proof (induction n rule: showNat.induct)
  case (1 n)
  show ?case
  proof (cases "n < 10")
    case True
    then show ?thesis by (subst showNat.simps) (simp add: digit_char_not_space)
  next
    case False
    with 1 obtain c cs where "showNat (n div 10) = c # cs" "\<not> isSpace c" by auto
    with False show ?thesis by (subst showNat.simps) simp
  qed
qed

text \<open>The reference host prints no number as a blank string.\<close>

lemma ref_host_number_not_blank: "trim (Number_toString ref_host n) \<noteq> []"
proof (cases n)
  case (Fin q)
  obtain c cs where sn: "showNat (nat \<lfloor>\<bar>q\<bar>\<rfloor>) = c # cs" and c: "\<not> isSpace c"
    using showNat_first by blast
  show ?thesis
  proof (cases "q < 0")
    case True
    then have "\<exists>cs'. Number_toString ref_host n = CHR ''-'' # cs'"
      by (simp add: Fin ref_host_def Let_def)
    moreover have "\<not> isSpace (CHR ''-'')" by (simp add: isSpace_def)
    ultimately show ?thesis using trim_keeps_first by fastforce
  next
    case False
    with sn have "\<exists>cs'. Number_toString ref_host n = c # cs'"
      by (auto simp: Fin ref_host_def Let_def abs_if)
    then show ?thesis using c trim_keeps_first by fastforce
  qed
qed (simp_all add: ref_host_def trim_def isSpace_def)

lemma js_lt_asym: "js_lt a b \<Longrightarrow> \<not> js_lt b a"
  by (cases a; cases b) auto

lemma js_lt_irrefl: "\<not> js_lt a a"
  by (cases a) auto

lemma js_le_not_gt: "js_le a b \<Longrightarrow> \<not> js_lt b a"
  by (auto simp: js_le_def js_lt_asym js_lt_irrefl)

section \<open>The required rule\<close>

text \<open>
  Claim C2, as the specification states it, fails on the code: a required rule reports
  the number \<open>0\<close>, which is present, not null and not a blank string.
\<close>

theorem required_rule_rejects_zero:
  "\<not> ((validateField ref_host (VNum (Fin 0)) (hd (rules validationEngine)) 0
          [(''Name'', VNum (Fin 0))] None \<noteq> Inr None)
        \<longleftrightarrow> required_fails_spec (VNum (Fin 0)))"
  by (simp add: validateField_def validationEngine_def required_fails_spec_def)

text \<open>
  Claim C2, amended. For every row and every rule of type required, on a host that
  prints no number as a blank string, the validator returns an error exactly when the
  value at the rule's field is falsy (absent, null, false, the number zero, NaN or the
  empty string) or is a string that is empty after trimming; every other value passes.
  The error carries the row index, the rule's field as column, and the rule's message,
  severity and id.
\<close>

theorem required_rule_falsy_or_blank:
  assumes "rule_type rule = Required"
    and "\<And>n. trim (Number_toString H n) \<noteq> []"
  shows "validateField H v rule rowIndex r allFiles =
           (if required_fails_spec v \<or> v = VBool False \<or> v = VNum (Fin 0) \<or> v = VNum NaN
            then Inr (Some \<lparr>row = rowIndex, column = rule_field rule, message = rule_message rule,
                             severity = rule_severity rule, ruleId = rule_id rule\<rparr>)
            else Inr None)"
proof (cases v)
  case (VNum n)
  then show ?thesis using assms
    by (auto simp: validateField_def required_fails_spec_def)
next
  case (VBool b)
  then show ?thesis using assms
    by (auto simp: validateField_def required_fails_spec_def trim_def isSpace_def)
qed (use assms in \<open>auto simp: validateField_def required_fails_spec_def trim_def isSpace_def\<close>)

theorem required_rule_falsy_or_blank_witness:
  "validateField ref_host (get_field [(''Name'', VStr ''  '')] ''Name'') (hd (rules validationEngine)) 3
       [(''Name'', VStr ''  '')] None
     = Inr (Some \<lparr>row = 3, column = ''Name'', message = ''Client name is required'',
                   severity = Error, ruleId = ''req-client-name''\<rparr>)
   \<and> validateField ref_host (get_field [(''Name'', VStr ''Ada'')] ''Name'') (hd (rules validationEngine)) 3
       [(''Name'', VStr ''Ada'')] None
     = Inr None"
proof -
  have ty: "rule_type (hd (rules validationEngine)) = Required"
    by (simp add: validationEngine_def)
  show ?thesis
    using required_rule_falsy_or_blank [OF ty ref_host_number_not_blank, of "VStr ''  ''" 3 "[(''Name'', VStr ''  '')]" None]
      required_rule_falsy_or_blank [OF ty ref_host_number_not_blank, of "VStr ''Ada''" 3 "[(''Name'', VStr ''Ada'')]" None]
    by (simp add: get_field_def required_fails_spec_def trim_def isSpace_def validationEngine_def)
qed

section \<open>The range rule\<close>

text \<open>
  Claim C7. For a rule of type range with bounds \<open>cmin\<close> and \<open>cmax\<close> in its config:
  when \<^verbatim>\<open>parseFloat\<close> of the value is NaN, no error is produced; when the parsed
  number is below \<open>cmin\<close> or above \<open>cmax\<close>, an error is produced whose message is the
  rule's message followed by the bounds in parentheses; when it lies in the inclusive
  interval, no error is produced.
\<close>

theorem range_rule:
  assumes "rule_type rule = Range" and "rule_config rule = Some (RangeConfig cmin cmax)"
  shows "(isNaN (parseFloat H (ToString_prim H v)) \<longrightarrow>
            validateField H v rule rowIndex r allFiles = Inr None) \<and>
         (\<not> isNaN (parseFloat H (ToString_prim H v)) \<and>
            (js_lt (parseFloat H (ToString_prim H v)) cmin \<or>
             js_gt (parseFloat H (ToString_prim H v)) cmax) \<longrightarrow>
            validateField H v rule rowIndex r allFiles =
              Inr (Some \<lparr>row = rowIndex, column = rule_field rule,
                         message = rule_message rule @ '' ('' @ Number_toString H cmin @ ''-''
                                     @ Number_toString H cmax @ '')'',
                         severity = rule_severity rule, ruleId = rule_id rule\<rparr>)) \<and>
         (js_le cmin (parseFloat H (ToString_prim H v)) \<and>
            js_le (parseFloat H (ToString_prim H v)) cmax \<longrightarrow>
            validateField H v rule rowIndex r allFiles = Inr None)"
  using assms js_le_not_gt [of cmin "parseFloat H (ToString_prim H v)"]
    js_le_not_gt [of "parseFloat H (ToString_prim H v)" cmax]
  by (auto simp: validateField_def Let_def js_gt_def)

theorem range_rule_witness:
  "validateField ref_host (VStr ''150'') (rules validationEngine ! 4) 0 [(''CurrentLoad'', VStr ''150'')] None
     = Inr (Some \<lparr>row = 0, column = ''CurrentLoad'',
                   message = ''Current load exceeds maximum capacity (0-100)'',
                   severity = Warning, ruleId = ''worker-load-range''\<rparr>)
   \<and> validateField ref_host (VStr ''abc'') (rules validationEngine ! 4) 1 [(''CurrentLoad'', VStr ''abc'')] None
     = Inr None
   \<and> validateField ref_host (VStr ''100'') (rules validationEngine ! 4) 2 [(''CurrentLoad'', VStr ''100'')] None
     = Inr None"
proof -
  have ty: "rule_type (rules validationEngine ! 4) = Range"
    by (simp add: validationEngine_def)
  have cfg: "rule_config (rules validationEngine ! 4) = Some (RangeConfig (Fin 0) (Fin 100))"
    by (simp add: validationEngine_def)
  have p1: "parseFloat ref_host ''150'' = Fin 150"
    by (simp add: host_simps isSpace_def isDigit_def)
  have p2: "parseFloat ref_host ''abc'' = NaN"
    by (simp add: host_simps isSpace_def isDigit_def)
  have p3: "parseFloat ref_host ''100'' = Fin 100"
    by (simp add: host_simps isSpace_def isDigit_def)
  have n0: "Number_toString ref_host (Fin 0) = ''0''"
    by (simp add: host_simps)
  have n100: "Number_toString ref_host (Fin 100) = ''100''"
    by (simp add: host_simps)
  show ?thesis
    using range_rule [OF ty cfg, of ref_host "VStr ''150''" 0 "[(''CurrentLoad'', VStr ''150'')]" None]
      range_rule [OF ty cfg, of ref_host "VStr ''abc''" 1 "[(''CurrentLoad'', VStr ''abc'')]" None]
      range_rule [OF ty cfg, of ref_host "VStr ''100''" 2 "[(''CurrentLoad'', VStr ''100'')]" None]
    by (simp add: p1 p2 p3 n0 n100 js_gt_def js_le_def validationEngine_def)
qed

section \<open>The reference rule without a dataset\<close>

text \<open>
  Claim C10. When \<^verbatim>\<open>validateData\<close> is called without the dataset, a rule of type
  reference produces no error (and raises nothing), whatever the value of its field.
\<close>

theorem reference_rule_without_dataset:
  "rule_type rule = Reference \<Longrightarrow> validateField H v rule rowIndex r None = Inr None"
  by (simp add: validateField_def)

text \<open>
  The same table validates clean alone and with a broken reference once the dataset is
  supplied.
\<close>

theorem reference_rule_without_dataset_witness:
  "validateField ref_host (VStr ''[\"T9\"]'') (rules validationEngine ! 5) 0 [(''TaskIDs'', VStr ''[\"T9\"]'')] None
     = Inr None
   \<and> validateField ref_host (VStr ''[\"T9\"]'') (rules validationEngine ! 5) 0 [(''TaskIDs'', VStr ''[\"T9\"]'')]
        (Some [(''tasks.csv'', \<lparr>name = ''tasks.csv'', data = [[(''TaskID'', VStr ''T1'')]],
                                 headers = [''TaskID''], validationErrors = []\<rparr>)])
     = Inr (Some \<lparr>row = 0, column = ''TaskIDs'', message = ''Referenced task ID not found: T9'',
                   severity = Error, ruleId = ''task-reference''\<rparr>)"
proof -
  have ty: "rule_type (rules validationEngine ! 5) = Reference"
    by (simp add: validationEngine_def)
  show ?thesis
    using reference_rule_without_dataset [OF ty, of ref_host "VStr ''[\"T9\"]''" 0 "[(''TaskIDs'', VStr ''[\"T9\"]'')]"]
    by (simp add: eval_simps host_simps)
qed

section \<open>Values that make the engine throw\<close>

text \<open>
  Claim C1 fails on the code. A numeric cell in the \<^verbatim>\<open>PhoneNumber\<close> column, as the
  spreadsheet parser delivers it, reaches \<^verbatim>\<open>value.replace\<close>, which a number does not
  have: the call raises TypeError and \<^verbatim>\<open>validateData\<close> returns no list. So does a
  \<^verbatim>\<open>TaskIDs\<close> cell whose text parses as JSON to a truthy value that is not an array,
  here the number 5, at \<^verbatim>\<open>taskIds.filter\<close>.
\<close>

theorem validateData_throws:
  "validateData H validationEngine [[(''PhoneNumber'', VNum (Fin 5551234567))]] hdrs fileName allFiles
     = Inl TypeError
   \<and> validateData ref_host validationEngine [[(''TaskIDs'', VStr ''5'')]] hdrs fileName (Some [])
     = Inl TypeError"
  by (simp add: eval_simps host_simps)

section \<open>The two loops\<close>

lemma rule_body_Inr:
  assumes "rule_body H allFiles i r rule st = Inr st'"
  shows "errors st' = errors st @ rule_errors H allFiles i r rule"
    and "duplicateTracker st' = foldl track (duplicateTracker st) (rule_events i r rule)"
  using assms
  by (auto simp: rule_body_def rule_errors_def rule_events_def track_def Let_def
      split: sum.splits option.splits if_splits)

lemma forEach_rule_body:
  "forEach (rule_body H allFiles i r) rs st = Inr st' \<Longrightarrow>
     errors st' = errors st @ concat (map (rule_errors H allFiles i r) rs) \<and>
     duplicateTracker st' = foldl track (duplicateTracker st) (concat (map (rule_events i r) rs))"
proof (induction rs arbitrary: st)
  case Nil
  then show ?case by simp
next
  case (Cons rule rs)
  from Cons.prems obtain st1 where
    s1: "rule_body H allFiles i r rule st = Inr st1" and
    s2: "forEach (rule_body H allFiles i r) rs st1 = Inr st'"
    by (auto split: sum.splits)
  from Cons.IH [OF s2] rule_body_Inr [OF s1] show ?case by simp
qed

lemma forEach_row_body:
  "forEach (row_body H rs allFiles) irs st = Inr st' \<Longrightarrow>
     errors st' = errors st @ concat (map (row_errors H rs allFiles) irs) \<and>
     duplicateTracker st' = foldl track (duplicateTracker st) (concat (map (row_events rs) irs))"
proof (induction irs arbitrary: st)
  case Nil
  then show ?case by simp
next
  case (Cons ir irs)
  from Cons.prems obtain st1 where
    s1: "row_body H rs allFiles ir st = Inr st1" and
    s2: "forEach (row_body H rs allFiles) irs st1 = Inr st'"
    by (auto split: sum.splits)
  from s1 have "forEach (rule_body H allFiles (fst ir) (snd ir)) rs st = Inr st1"
    by (simp add: row_body_def)
  from forEach_rule_body [OF this] Cons.IH [OF s2] show ?case
    by (simp add: row_errors_def row_events_def)
qed

subsection \<open>When the loops run to their end\<close>

lemma forEach_returns:
  "(\<And>x s. x \<in> set xs \<Longrightarrow> \<exists>s'. f x s = Inr s') \<Longrightarrow> \<exists>s'. forEach f xs s = Inr s'"
proof (induction xs arbitrary: s)
  case Nil
  show ?case by simp
next
  case (Cons x xs)
  from Cons.prems [of x s] obtain s1 where "f x s = Inr s1" by auto
  moreover from Cons.IH [of s1] Cons.prems obtain s' where "forEach f xs s1 = Inr s'" by auto
  ultimately show ?case by simp
qed

lemma forEach_returned:
  "forEach f xs s = Inr s' \<Longrightarrow> x \<in> set xs \<Longrightarrow> \<exists>s1 s2. f x s1 = Inr s2"
proof (induction xs arbitrary: s)
  case Nil
  then show ?case by simp
next
  case (Cons y ys)
  from Cons.prems(1) obtain s1 where y: "f y s = Inr s1" and ys: "forEach f ys s1 = Inr s'"
    by (auto split: sum.splits)
  show ?case
  proof (cases "x = y")
    case True
    with y show ?thesis by blast
  next
    case False
    with Cons.prems(2) have "x \<in> set ys" by simp
    from Cons.IH [OF ys this] show ?thesis .
  qed
qed

lemma rule_body_returns_iff:
  "(\<exists>st'. rule_body H allFiles i r rule st = Inr st') \<longleftrightarrow>
     \<not> isl (validateField H (get_field r (rule_field rule)) rule i r allFiles)"
  by (auto simp: rule_body_def Let_def split: sum.splits)

lemma row_body_returns_iff:
  "(\<exists>st'. row_body H rs allFiles ir st = Inr st') \<longleftrightarrow>
     (\<forall>rule \<in> set rs.
        \<not> isl (validateField H (get_field (snd ir) (rule_field rule)) rule (fst ir) (snd ir) allFiles))"
proof
  assume "\<exists>st'. row_body H rs allFiles ir st = Inr st'"
  then obtain st' where "forEach (rule_body H allFiles (fst ir) (snd ir)) rs st = Inr st'"
    by (auto simp: row_body_def)
  then have "\<forall>rule \<in> set rs. \<exists>s1 s2. rule_body H allFiles (fst ir) (snd ir) rule s1 = Inr s2"
    by (blast dest: forEach_returned)
  then show "\<forall>rule \<in> set rs.
        \<not> isl (validateField H (get_field (snd ir) (rule_field rule)) rule (fst ir) (snd ir) allFiles)"
    using rule_body_returns_iff by blast
next
  assume "\<forall>rule \<in> set rs.
        \<not> isl (validateField H (get_field (snd ir) (rule_field rule)) rule (fst ir) (snd ir) allFiles)"
  then have "\<And>rule s. rule \<in> set rs \<Longrightarrow> \<exists>s'. rule_body H allFiles (fst ir) (snd ir) rule s = Inr s'"
    using rule_body_returns_iff by blast
  then show "\<exists>st'. row_body H rs allFiles ir st = Inr st'"
    unfolding row_body_def by (rule forEach_returns)
qed

text \<open>\<^verbatim>\<open>validateData\<close> returns a list exactly when no field validator raises.\<close>

lemma validateData_returns_iff:
  "(\<exists>errs. validateData H eng dat hdrs fileName allFiles = Inr errs)
   \<longleftrightarrow> validators_return H (rules eng) allFiles dat"
proof
  assume "\<exists>errs. validateData H eng dat hdrs fileName allFiles = Inr errs"
  then obtain st where run: "forEach (row_body H (rules eng) allFiles) (zip [0..<length dat] dat)
            \<lparr>errors = [], duplicateTracker = []\<rparr> = Inr st"
    by (auto simp: validateData_def split: sum.splits)
  have "\<forall>rule \<in> set (rules eng).
        \<not> isl (validateField H (get_field (snd ir) (rule_field rule)) rule (fst ir) (snd ir) allFiles)"
    if "ir \<in> set (zip [0..<length dat] dat)" for ir
  proof -
    from forEach_returned [OF run that] obtain s1 s2 where
      "row_body H (rules eng) allFiles ir s1 = Inr s2" by blast
    then show ?thesis using row_body_returns_iff by blast
  qed
  then show "validators_return H (rules eng) allFiles dat"
    by (simp add: validators_return_def)
next
  assume "validators_return H (rules eng) allFiles dat"
  then have "\<exists>s'. row_body H (rules eng) allFiles ir s = Inr s'"
    if "ir \<in> set (zip [0..<length dat] dat)" for ir s
    using that row_body_returns_iff unfolding validators_return_def by blast
  then have "\<exists>st. forEach (row_body H (rules eng) allFiles) (zip [0..<length dat] dat)
            \<lparr>errors = [], duplicateTracker = []\<rparr> = Inr st"
    by (rule forEach_returns)
  then show "\<exists>errs. validateData H eng dat hdrs fileName allFiles = Inr errs"
    by (auto simp: validateData_def)
qed

subsection \<open>The tracker groups the occurrences by value\<close>

lemma first_occ_snoc:
  "first_occ (xs @ [x]) = (if x \<in> set xs then first_occ xs else first_occ xs @ [x])"
  by (simp add: first_occ_def)

lemma set_first_occ [simp]: "set (first_occ xs) = set xs"
  by (simp add: first_occ_def)

lemma Map_has_group: "Map_has (group_by_key evs) k \<longleftrightarrow> k \<in> fst ` set evs"
  by (auto simp: Map_has_def group_by_key_def map_of_eq_None_iff image_iff comp_def)

lemma track_group: "track (group_by_key evs) e = group_by_key (evs @ [e])"
proof -
  obtain k i where e: "e = (k, i)" by (cases e)
  show ?thesis
  proof (cases "k \<in> fst ` set evs")
    case True
    then have has: "Map_has (group_by_key evs) k" by (simp add: Map_has_group)
    have "track (group_by_key evs) e = Map_get_push (group_by_key evs) k i"
      using has by (simp add: track_def e)
    also have "\<dots> = group_by_key (evs @ [e])"
      using True by (auto simp: Map_get_push_def group_by_key_def first_occ_snoc e)
    finally show ?thesis .
  next
    case False
    then have nhas: "\<not> Map_has (group_by_key evs) k" by (simp add: Map_has_group)
    have "track (group_by_key evs) e = Map_get_push (group_by_key evs @ [(k, [])]) k i"
      using nhas by (simp add: track_def e Map_set_def)
    also have "\<dots> = group_by_key (evs @ [e])"
      using False
      by (auto simp: Map_get_push_def group_by_key_def first_occ_snoc e filter_empty_conv image_iff)
    finally show ?thesis .
  qed
qed

lemma foldl_track_group: "foldl track [] evs = group_by_key evs"
proof (induction evs rule: rev_induct)
  case Nil
  show ?case by (simp add: group_by_key_def first_occ_def)
next
  case (snoc e evs)
  then show ?case by (simp add: track_group)
qed

text \<open>What \<^verbatim>\<open>validateData\<close> returns, when it returns, without the loops and the map.\<close>

lemma validateData_Inr:
  assumes "validateData H eng dat hdrs fileName allFiles = Inr errs"
  shows "errs = concat (map (row_errors H (rules eng) allFiles) (zip [0..<length dat] dat))
               @ concat (map (duplicate_errors H)
                   (group_by_key (concat (map (row_events (rules eng)) (zip [0..<length dat] dat)))))"
proof -
  from assms obtain st where
    run: "forEach (row_body H (rules eng) allFiles) (zip [0..<length dat] dat)
            \<lparr>errors = [], duplicateTracker = []\<rparr> = Inr st"
    and errs: "errs = errors st @ concat (map (duplicate_errors H) (duplicateTracker st))"
    by (auto simp: validateData_def split: sum.splits)
  from forEach_row_body [OF run] errs show ?thesis
    by (simp add: foldl_track_group)
qed

text \<open>The result of \<^verbatim>\<open>validateData\<close> on every table.\<close>

lemma validateData_eq:
  "validateData H eng dat hdrs fileName allFiles =
     (if validators_return H (rules eng) allFiles dat
      then Inr (concat (map (row_errors H (rules eng) allFiles) (zip [0..<length dat] dat))
                @ concat (map (duplicate_errors H)
                    (group_by_key (concat (map (row_events (rules eng)) (zip [0..<length dat] dat))))))
      else Inl TypeError)"
proof (cases "validateData H eng dat hdrs fileName allFiles")
  case (Inl e)
  then have "\<not> validators_return H (rules eng) allFiles dat"
    using validateData_returns_iff [of H eng dat hdrs fileName allFiles] by auto
  with Inl show ?thesis by (cases e) simp
next
  case (Inr errs)
  then have "validators_return H (rules eng) allFiles dat"
    using validateData_returns_iff [of H eng dat hdrs fileName allFiles] by auto
  with Inr validateData_Inr [OF Inr] show ?thesis by simp
qed

subsection \<open>Row indices are recorded in ascending order\<close>

lemma snd_row_events: "e \<in> set (row_events rs ir) \<Longrightarrow> snd e = fst ir"
  by (auto simp: row_events_def rule_events_def split: if_splits)

lemma sorted_constant: "\<forall>x \<in> set xs. x = (c::nat) \<Longrightarrow> sorted xs"
  by (induction xs) auto

lemma sorted_row_events: "sorted (map snd (row_events rs ir))"
  by (rule sorted_constant [of _ "fst ir"]) (auto dest: snd_row_events)

lemma sorted_events:
  "sorted (map fst irs) \<Longrightarrow> sorted (map snd (concat (map (row_events rs) irs)))"
proof (induction irs)
  case Nil
  show ?case by simp
next
  case (Cons ir irs)
  have "\<forall>x \<in> set (map snd (row_events rs ir)). \<forall>y \<in> set (map snd (concat (map (row_events rs) irs))). x \<le> y"
    using Cons.prems by (auto dest!: snd_row_events)
  with Cons sorted_row_events [of rs ir] show ?case
    by (simp add: sorted_append)
qed

lemma sorted_groups:
  assumes "sorted (map snd evs)" and "g \<in> set (group_by_key evs)"
  shows "sorted (snd g)"
proof -
  from assms(2) obtain k where "snd g = map snd (filter (\<lambda>e. fst e = k) evs)"
    by (auto simp: group_by_key_def)
  moreover have "sorted (map snd (filter (\<lambda>e. fst e = k) evs))"
    using assms(1) by (induction evs) auto
  ultimately show ?thesis by simp
qed

section \<open>The order of the error list\<close>

text \<open>
  Claim C5. For every table and registry, \<^verbatim>\<open>validateData\<close> raises TypeError when a
  field validator raises on some row, and otherwise returns this list: the errors of
  the rows, row by row in table order and, within a row, rule by rule in registry
  order; then, after all of them, the duplicate errors, group by group, the groups in
  the order in which their values first occur in the table and each group in ascending
  order of row index. The list is this function of the rows and the registry: no map or
  hash order enters it.
\<close>

theorem validateData_order:
  "validateData H eng dat hdrs fileName allFiles =
     (if validators_return H (rules eng) allFiles dat
      then Inr (concat (map (row_errors H (rules eng) allFiles) (zip [0..<length dat] dat))
                @ concat (map (duplicate_errors H)
                    (group_by_key (concat (map (row_events (rules eng)) (zip [0..<length dat] dat))))))
      else Inl TypeError)
   \<and> (\<forall>g \<in> set (group_by_key (concat (map (row_events (rules eng)) (zip [0..<length dat] dat)))).
         sorted (snd g) \<and> map row (duplicate_errors H g) = (if 1 < length (snd g) then snd g else []))"
proof -
  have "sorted (map fst (zip [0..<length dat] dat))" by simp
  then have "sorted (map snd (concat (map (row_events (rules eng)) (zip [0..<length dat] dat))))"
    by (rule sorted_events)
  then have "\<forall>g \<in> set (group_by_key (concat (map (row_events (rules eng)) (zip [0..<length dat] dat)))).
               sorted (snd g)"
    by (blast intro: sorted_groups)
  moreover have "map row (duplicate_errors H g) = (if 1 < length (snd g) then snd g else [])" for g
    by (simp add: duplicate_errors_def Let_def comp_def)
  ultimately show ?thesis
    using validateData_eq [of H eng dat hdrs fileName allFiles] by simp
qed

section \<open>Duplicate detection under the built-in registry\<close>






lemma builtin_row_events:
  "row_events (rules validationEngine) ir =
     (if truthy (get_field (snd ir) ''ClientID'') then [(get_field (snd ir) ''ClientID'', fst ir)] else [])"
  by (simp add: row_events_def rule_events_def validationEngine_def)




subsection \<open>When the built-in rules raise nothing\<close>











text \<open>
  Errors of three rules on the rows 0, 1 and 3, then the group of \<^verbatim>\<open>B\<close> (first seen
  in row 0) before the group of \<^verbatim>\<open>A\<close> (first seen in row 1).
\<close>

theorem validateData_order_witness:
  "validateData ref_host validationEngine mixed_table [] ''clients.csv'' None
     = Inr [\<lparr>row = 0, column = ''Name'', message = ''Client name is required'',
             severity = Error, ruleId = ''req-client-name''\<rparr>,
            \<lparr>row = 1, column = ''Email'', message = ''Invalid email format'',
             severity = Error, ruleId = ''email-format''\<rparr>,
            \<lparr>row = 3, column = ''CurrentLoad'',
             message = ''Current load exceeds maximum capacity (0-100)'',
             severity = Warning, ruleId = ''worker-load-range''\<rparr>,
            \<lparr>row = 0, column = ''ClientID'', message = ''Duplicate ID \"B\" found in rows 1, 4'',
             severity = Error, ruleId = ''duplicate-ids''\<rparr>,
            \<lparr>row = 3, column = ''ClientID'', message = ''Duplicate ID \"B\" found in rows 1, 4'',
             severity = Error, ruleId = ''duplicate-ids''\<rparr>,
            \<lparr>row = 1, column = ''ClientID'', message = ''Duplicate ID \"A\" found in rows 2, 3'',
             severity = Error, ruleId = ''duplicate-ids''\<rparr>,
            \<lparr>row = 2, column = ''ClientID'', message = ''Duplicate ID \"A\" found in rows 2, 3'',
             severity = Error, ruleId = ''duplicate-ids''\<rparr>]
   \<and> group_by_key (concat (map (row_events (rules validationEngine)) (zip [0..<length mixed_table] mixed_table)))
     = [(VStr ''B'', [0, 3]), (VStr ''A'', [1, 2])]"
proof -
  have run: "validateData ref_host validationEngine mixed_table [] ''clients.csv'' None
     = Inr [\<lparr>row = 0, column = ''Name'', message = ''Client name is required'',
             severity = Error, ruleId = ''req-client-name''\<rparr>,
            \<lparr>row = 1, column = ''Email'', message = ''Invalid email format'',
             severity = Error, ruleId = ''email-format''\<rparr>,
            \<lparr>row = 3, column = ''CurrentLoad'',
             message = ''Current load exceeds maximum capacity (0-100)'',
             severity = Warning, ruleId = ''worker-load-range''\<rparr>,
            \<lparr>row = 0, column = ''ClientID'', message = ''Duplicate ID \"B\" found in rows 1, 4'',
             severity = Error, ruleId = ''duplicate-ids''\<rparr>,
            \<lparr>row = 3, column = ''ClientID'', message = ''Duplicate ID \"B\" found in rows 1, 4'',
             severity = Error, ruleId = ''duplicate-ids''\<rparr>,
            \<lparr>row = 1, column = ''ClientID'', message = ''Duplicate ID \"A\" found in rows 2, 3'',
             severity = Error, ruleId = ''duplicate-ids''\<rparr>,
            \<lparr>row = 2, column = ''ClientID'', message = ''Duplicate ID \"A\" found in rows 2, 3'',
             severity = Error, ruleId = ''duplicate-ids''\<rparr>]"
    by (simp add: mixed_table_def eval_simps host_simps)
  have groups: "group_by_key (concat (map (row_events (rules validationEngine)) (zip [0..<length mixed_table] mixed_table)))
     = [(VStr ''B'', [0, 3]), (VStr ''A'', [1, 2])]"
    by (simp add: mixed_table_def builtin_row_events get_field_def group_by_key_def first_occ_def)
  from validateData_order [of ref_host validationEngine mixed_table "[]" "''clients.csv''" None] run
  have "validators_return ref_host (rules validationEngine) None mixed_table"
    by (auto split: if_splits)
  with validateData_order [of ref_host validationEngine mixed_table "[]" "''clients.csv''" None]
    run groups
  show ?thesis by simp
qed

section \<open>Several duplicate rules\<close>

text \<open>
  Claim C4 fails on the code. With a second duplicate rule on \<^verbatim>\<open>WorkerID\<close> in the
  registry, two rows with the same worker id are reported with the column
  \<^verbatim>\<open>ClientID\<close>, the rule id \<^verbatim>\<open>duplicate-ids\<close> and the severity error, not
  with the field, id and severity of the rule that tracked them; and the two rules
  share one tracker keyed by value alone, so a client id in one row and an equal
  worker id in another are reported as duplicates of each other.
\<close>

theorem duplicate_rules_share_tracker:
  "validateData ref_host (addCustomRule worker_rule validationEngine) workers_table
       [''WorkerID'', ''Name''] ''workers.csv'' None
     = Inr [\<lparr>row = 0, column = ''ClientID'', message = ''Duplicate ID \"W1\" found in rows 1, 2'',
             severity = Error, ruleId = ''duplicate-ids''\<rparr>,
            \<lparr>row = 1, column = ''ClientID'', message = ''Duplicate ID \"W1\" found in rows 1, 2'',
             severity = Error, ruleId = ''duplicate-ids''\<rparr>]
   \<and> validateData ref_host (addCustomRule worker_rule validationEngine) crossed_table
       [''ClientID'', ''WorkerID'', ''Name''] ''people.csv'' None
     = Inr [\<lparr>row = 0, column = ''ClientID'', message = ''Duplicate ID \"X\" found in rows 1, 2'',
             severity = Error, ruleId = ''duplicate-ids''\<rparr>,
            \<lparr>row = 1, column = ''ClientID'', message = ''Duplicate ID \"X\" found in rows 1, 2'',
             severity = Error, ruleId = ''duplicate-ids''\<rparr>]"
  by (simp add: workers_table_def crossed_table_def worker_rule_def eval_simps host_simps)

section \<open>The reference rule with a dataset\<close>

lemma startsWith_iff: "startsWith s t \<longleftrightarrow> (\<exists>post. s = t @ post)"
  by (induction s t rule: startsWith.induct) auto

lemma includes_str_iff: "includes_str s t \<longleftrightarrow> (\<exists>pre post. s = pre @ t @ post)"
proof (induction s)
  case Nil
  show ?case by simp
next
  case (Cons c cs)
  show ?case
  proof
    assume "includes_str (c # cs) t"
    then consider "startsWith (c # cs) t" | "includes_str cs t" by auto
    then show "\<exists>pre post. c # cs = pre @ t @ post"
    proof cases
      case 1
      then obtain post where "c # cs = t @ post" by (auto simp: startsWith_iff)
      then have "c # cs = [] @ t @ post" by simp
      then show ?thesis by blast
    next
      case 2
      with Cons obtain pre post where "cs = pre @ t @ post" by auto
      then have "c # cs = (c # pre) @ t @ post" by simp
      then show ?thesis by blast
    qed
  next
    assume "\<exists>pre post. c # cs = pre @ t @ post"
    then obtain pre post where eq: "c # cs = pre @ t @ post" by auto
    show "includes_str (c # cs) t"
    proof (cases pre)
      case Nil
      with eq have "startsWith (c # cs) t" by (auto simp: startsWith_iff)
      then show ?thesis by simp
    next
      case (Cons p ps)
      with eq have "cs = ps @ t @ post" by simp
      with Cons.IH have "includes_str cs t" by blast
      then show ?thesis by simp
    qed
  qed
qed


text \<open>The table of tasks is a table whose lower-cased name has \<^verbatim>\<open>task\<close> inside, and no table before it is.\<close>

lemma first_task_table_Some:
  "first_task_table fs = Some t \<longleftrightarrow>
     (\<exists>before after. fs = before @ t # after
        \<and> (\<exists>pre post. toLowerCase (name t) = pre @ ''task'' @ post)
        \<and> (\<forall>f \<in> set before. \<nexists>pre post. toLowerCase (name f) = pre @ ''task'' @ post))"
proof (induction fs)
  case Nil
  show ?case by simp
next
  case (Cons f fs)
  show ?case
  proof (cases "includes_str (toLowerCase (name f)) ''task''")
    case True
    have "(\<exists>before after. f # fs = before @ t # after
        \<and> (\<exists>pre post. toLowerCase (name t) = pre @ ''task'' @ post)
        \<and> (\<forall>f \<in> set before. \<nexists>pre post. toLowerCase (name f) = pre @ ''task'' @ post))
      \<longleftrightarrow> f = t"
    proof
      assume "\<exists>before after. f # fs = before @ t # after
        \<and> (\<exists>pre post. toLowerCase (name t) = pre @ ''task'' @ post)
        \<and> (\<forall>f \<in> set before. \<nexists>pre post. toLowerCase (name f) = pre @ ''task'' @ post)"
      then obtain before after where eq: "f # fs = before @ t # after"
        and nb: "\<forall>f \<in> set before. \<not> includes_str (toLowerCase (name f)) ''task''"
        by (auto simp: includes_str_iff)
      show "f = t"
      proof (cases before)
        case Nil
        with eq show ?thesis by simp
      next
        case (Cons b bs)
        with eq nb True show ?thesis by auto
      qed
    next
      assume "f = t"
      with True have "f # fs = [] @ t # fs \<and> (\<exists>pre post. toLowerCase (name t) = pre @ ''task'' @ post)"
        by (simp add: includes_str_iff)
      then show "\<exists>before after. f # fs = before @ t # after
        \<and> (\<exists>pre post. toLowerCase (name t) = pre @ ''task'' @ post)
        \<and> (\<forall>f \<in> set before. \<nexists>pre post. toLowerCase (name f) = pre @ ''task'' @ post)"
        by (metis empty_iff list.set(1))
    qed
    with True show ?thesis by auto
  next
    case False
    then have nf: "\<nexists>pre post. toLowerCase (name f) = pre @ ''task'' @ post"
      by (simp add: includes_str_iff)
    have "(\<exists>before after. f # fs = before @ t # after
        \<and> (\<exists>pre post. toLowerCase (name t) = pre @ ''task'' @ post)
        \<and> (\<forall>f \<in> set before. \<nexists>pre post. toLowerCase (name f) = pre @ ''task'' @ post))
      \<longleftrightarrow> (\<exists>before after. fs = before @ t # after
        \<and> (\<exists>pre post. toLowerCase (name t) = pre @ ''task'' @ post)
        \<and> (\<forall>f \<in> set before. \<nexists>pre post. toLowerCase (name f) = pre @ ''task'' @ post))"
      (is "?L \<longleftrightarrow> ?R")
    proof
      assume ?L
      then obtain before after where eq: "f # fs = before @ t # after"
        and t: "\<exists>pre post. toLowerCase (name t) = pre @ ''task'' @ post"
        and nb: "\<forall>f \<in> set before. \<nexists>pre post. toLowerCase (name f) = pre @ ''task'' @ post"
        by blast
      show ?R
      proof (cases before)
        case Nil
        with eq t nf show ?thesis by simp
      next
        case (Cons b bs)
        with eq have "fs = bs @ t # after" by simp
        moreover from Cons nb have "\<forall>f \<in> set bs. \<nexists>pre post. toLowerCase (name f) = pre @ ''task'' @ post"
          by simp
        ultimately show ?thesis using t by blast
      qed
    next
      assume ?R
      then obtain before after where eq: "fs = before @ t # after"
        and t: "\<exists>pre post. toLowerCase (name t) = pre @ ''task'' @ post"
        and nb: "\<forall>f \<in> set before. \<nexists>pre post. toLowerCase (name f) = pre @ ''task'' @ post"
        by blast
      from eq have "f # fs = (f # before) @ t # after" by simp
      moreover from nb nf have "\<forall>g \<in> set (f # before). \<nexists>pre post. toLowerCase (name g) = pre @ ''task'' @ post"
        by simp
      ultimately show ?L using t by blast
    qed
    with False Cons.IH show ?thesis by simp
  qed
qed







section \<open>Calls of the engine\<close>






section \<open>The validation score\<close>










end
